theory Spec2Isabelle
  imports Main
begin

section \<open>Retry backoff of the command-line scheduler (app.js)\<close>

text \<open>
  \<^verbatim>\<open>const RATE_LIMIT_BACKOFF_BASE = 1000; const MAX_RETRIES = 5;\<close>
  Delays are milliseconds. JavaScript computes them in double precision; every value
  \<open>baseDelay * 2 ^ attempt\<close> below the cap is an exact integer there, and a power that
  overflows to \<open>Infinity\<close> is cut to the cap by \<open>Math.min\<close>, so integer arithmetic gives
  the same results for every attempt number that is a natural number.
\<close>

definition RATE_LIMIT_BACKOFF_BASE :: int where
  "RATE_LIMIT_BACKOFF_BASE = 1000"

definition MAX_RETRIES :: nat where
  "MAX_RETRIES = 5"

definition calculateBackoffDelay :: "nat \<Rightarrow> int \<Rightarrow> int" where
  "calculateBackoffDelay attempt baseDelay = min (baseDelay * 2 ^ attempt) 300000"

text \<open>
  The catch branch of \<open>postTweet\<close> in app.js:
  \<open>isRateLimit = statusCode === 429\<close>, \<open>isRetryable = statusCode >= 500 || isRateLimit\<close>,
  and the delay takes the default base for a rate limit signal and 5000 otherwise.
  \<open>retryDelay\<close> is \<open>None\<close> where the code does not retry.
\<close>

definition isRateLimit :: "int \<Rightarrow> bool" where
  "isRateLimit statusCode = (statusCode = 429)"

definition isRetryable :: "int \<Rightarrow> bool" where
  "isRetryable statusCode = (statusCode \<ge> 500 \<or> isRateLimit statusCode)"

definition retryDelay :: "int \<Rightarrow> nat \<Rightarrow> int option" where
  "retryDelay statusCode attempt =
     (if isRetryable statusCode \<and> attempt < MAX_RETRIES
      then Some (if isRateLimit statusCode
                 then calculateBackoffDelay attempt RATE_LIMIT_BACKOFF_BASE
                 else calculateBackoffDelay attempt 5000)
      else None)"

section \<open>The scheduling server (server.js)\<close>

subsection \<open>Configuration and constants\<close>

definition TWEET_DAILY_LIMIT :: int where
  "TWEET_DAILY_LIMIT = 150"

definition TWEET_HOURLY_LIMIT :: int where
  "TWEET_HOURLY_LIMIT = 25"

definition TWEET_MINUTE_LIMIT :: int where
  "TWEET_MINUTE_LIMIT = 3"

text \<open>
  \<open>DRY_RUN\<close> is the environment switch; \<open>twitterClient\<close> says whether
  \<open>initializeTwitterClient\<close> produced a client (\<open>False\<close> is the source's \<open>null\<close>).
\<close>

record config =
  DRY_RUN :: bool
  twitterClient :: bool

subsection \<open>The tweets table\<close>

text \<open>
  One row of the table created in \<open>initDatabase\<close>, column by column. Instants are
  milliseconds since the epoch (the source stores their ISO text). \<open>runAt\<close> holds what
  \<open>parseScheduledDate\<close> reads from the stored text: \<open>None\<close> is its \<open>null\<close>.
  The table has exactly these eleven columns (\<open>tw_id\<close> and \<open>tw_text\<close> are the columns
  \<open>id\<close> and \<open>text\<close>); in particular it has no column \<open>nextRetryAt\<close>.
\<close>

datatype tweet_status = Pending | Posted | Failed

record tweet =
  tw_id :: string
  tw_text :: string
  runAt :: "int option"
  status :: tweet_status
  attempts :: int
  createdAt :: int
  updatedAt :: int
  postedAt :: "int option"
  tweetId :: "string option"
  error :: "string option"
  failedAt :: "int option"

text \<open>
  The \<open>updates\<close> object handed to \<open>updateTweet\<close>: a field is \<open>None\<close> when the
  object has no such key. \<open>u_tweetId\<close> is \<open>Some None\<close> when the key is present with
  the value \<open>undefined\<close> (\<open>result.data?.id\<close> of a response without id).
\<close>

record updates =
  u_text :: "string option"
  u_runAt :: "int option"
  u_status :: "tweet_status option"
  u_attempts :: "int option"
  u_postedAt :: "int option"
  u_tweetId :: "string option option"
  u_error :: "string option"
  u_failedAt :: "int option"
  u_nextRetryAt :: "int option"

definition no_updates :: updates where
  "no_updates = \<lparr>u_text = None, u_runAt = None, u_status = None, u_attempts = None,
     u_postedAt = None, u_tweetId = None, u_error = None, u_failedAt = None,
     u_nextRetryAt = None\<rparr>"


text \<open>The \<open>SET\<close> clause applied to one row; \<open>ts\<close> is the new \<open>updatedAt\<close>.\<close>

definition apply_updates :: "updates \<Rightarrow> int \<Rightarrow> tweet \<Rightarrow> tweet" where
  "apply_updates u ts r =
     r\<lparr>tw_text := (case u_text u of None \<Rightarrow> tw_text r | Some v \<Rightarrow> v),
       runAt := (case u_runAt u of None \<Rightarrow> runAt r | Some v \<Rightarrow> Some v),
       status := (case u_status u of None \<Rightarrow> status r | Some v \<Rightarrow> v),
       attempts := (case u_attempts u of None \<Rightarrow> attempts r | Some v \<Rightarrow> v),
       postedAt := (case u_postedAt u of None \<Rightarrow> postedAt r | Some v \<Rightarrow> Some v),
       tweetId := (case u_tweetId u of None \<Rightarrow> tweetId r | Some v \<Rightarrow> v),
       error := (case u_error u of None \<Rightarrow> error r | Some v \<Rightarrow> Some v),
       failedAt := (case u_failedAt u of None \<Rightarrow> failedAt r | Some v \<Rightarrow> Some v),
       updatedAt := ts\<rparr>"

text \<open>
  \<open>updateTweet\<close> builds \<open>UPDATE tweets SET key = ?, ..., updatedAt = ? WHERE id = ?\<close>
  from the keys of \<open>updates\<close>. A statement that names \<open>nextRetryAt\<close> is rejected by
  SQLite (no such column), \<open>db.run\<close> reports the error, and the function resolves
  \<open>false\<close> with no row changed. Otherwise every row with the given id is rewritten.
  The store itself is taken to work (no I/O failure).
\<close>

definition updateTweet :: "string \<Rightarrow> updates \<Rightarrow> int \<Rightarrow> tweet list \<Rightarrow> bool \<times> tweet list" where
  "updateTweet i u ts rows =
     (if u_nextRetryAt u \<noteq> None then (False, rows)
      else (True, map (\<lambda>r. if tw_id r = i then apply_updates u ts r else r) rows))"

subsection \<open>The rate_limits table\<close>

datatype period = Daily | Hourly | Minute

record rate_row =
  period :: period
  date :: string
  used :: int

definition limit_of :: "period \<Rightarrow> int" where
  "limit_of p = (case p of Daily \<Rightarrow> TWEET_DAILY_LIMIT | Hourly \<Rightarrow> TWEET_HOURLY_LIMIT
                 | Minute \<Rightarrow> TWEET_MINUTE_LIMIT)"

definition getRateLimitUsage :: "rate_row list \<Rightarrow> period \<Rightarrow> string \<Rightarrow> int" where
  "getRateLimitUsage rows p d =
     (case find (\<lambda>r. period r = p \<and> date r = d) rows of None \<Rightarrow> 0 | Some r \<Rightarrow> used r)"

text \<open>
  \<open>INSERT OR REPLACE\<close> under \<open>UNIQUE(period, date)\<close>: the conflicting row is deleted and
  the new row, carrying the old count plus \<open>n\<close>, is inserted.
\<close>

definition updateRateLimitUsage :: "period \<Rightarrow> string \<Rightarrow> int \<Rightarrow> rate_row list \<Rightarrow> rate_row list" where
  "updateRateLimitUsage p d n rows =
     filter (\<lambda>r. \<not> (period r = p \<and> date r = d)) rows
       @ [\<lparr>period = p, date = d, used = getRateLimitUsage rows p d + n\<rparr>]"

subsection \<open>The in-memory limiters\<close>

text \<open>
  \<open>RateLimiterMemory\<close> of the package rate-limiter-flexible, for the single key
  \<open>'user'\<close> the server uses: \<open>points\<close> and \<open>duration\<close> (seconds) are the constructor's
  options, \<open>entry\<close> the stored record (consumed points, expiry instant). \<open>consume\<close> adds
  the point first and rejects when the total exceeds \<open>points\<close>; a record that has
  expired is replaced by a fresh one.
\<close>

record limiter =
  points :: int
  duration :: int
  entry :: "(int \<times> int) option"

record RateLimiterRes =
  consumedPoints :: int
  msBeforeNext :: int

definition limiter_get :: "limiter \<Rightarrow> int \<Rightarrow> RateLimiterRes option" where
  "limiter_get l t =
     (case entry l of
        None \<Rightarrow> None
      | Some (c, ex) \<Rightarrow>
          if t < ex then Some \<lparr>consumedPoints = c, msBeforeNext = ex - t\<rparr> else None)"

definition limiter_consume :: "limiter \<Rightarrow> int \<Rightarrow> (RateLimiterRes + RateLimiterRes) \<times> limiter" where
  "limiter_consume l t =
     (let (c, ex) = (case limiter_get l t of
                       None \<Rightarrow> (1, t + duration l * 1000)
                     | Some r \<Rightarrow> (consumedPoints r + 1, t + msBeforeNext r));
          res = \<lparr>consumedPoints = c, msBeforeNext = ex - t\<rparr>
      in (if c > points l then Inl res else Inr res, l\<lparr>entry := Some (c, ex)\<rparr>))"

fun first_rejection :: "(RateLimiterRes + RateLimiterRes) list \<Rightarrow> RateLimiterRes option" where
  "first_rejection [] = None"
| "first_rejection (Inl r # rs) = Some r"
| "first_rejection (Inr r # rs) = first_rejection rs"

subsection \<open>Process state and the outside world\<close>

record state =
  tweets :: "tweet list"
  rate_limits :: "rate_row list"
  postedHashes :: "string set"
  dailyLimiter :: limiter
  hourlyLimiter :: limiter
  minuteLimiter :: limiter

text \<open>
  One reading of \<open>new Date()\<close>: the three bucket keys the source derives from it and
  the epoch milliseconds the limiters see.
\<close>

record instant =
  today :: string
  currentHour :: string
  currentMinute :: string
  ms :: int

text \<open>What \<open>twitterClient.v2.tweet\<close> does when called.\<close>

datatype api_outcome =
    ApiData "string option"
  | ApiNoData
  | ApiThrows string

text \<open>
  What the world supplies while one due tweet is handled: the clock read in
  \<open>postTweet\<close>, the behaviour of the remote call, and the clock read in \<open>updateTweet\<close>.
\<close>

record env =
  at :: instant
  api :: api_outcome
  updateClock :: int

definition initializeRateLimiters :: "instant \<Rightarrow> state \<Rightarrow> state" where
  "initializeRateLimiters now st =
     (let dailyUsed = getRateLimitUsage (rate_limits st) Daily (today now);
          hourlyUsed = getRateLimitUsage (rate_limits st) Hourly (currentHour now);
          minuteUsed = getRateLimitUsage (rate_limits st) Minute (currentMinute now)
      in st\<lparr>dailyLimiter := \<lparr>points = max 0 (TWEET_DAILY_LIMIT - dailyUsed),
                               duration = 24 * 60 * 60, entry = None\<rparr>,
             hourlyLimiter := \<lparr>points = max 0 (TWEET_HOURLY_LIMIT - hourlyUsed),
                                duration = 60 * 60, entry = None\<rparr>,
             minuteLimiter := \<lparr>points = max 0 (TWEET_MINUTE_LIMIT - minuteUsed),
                                duration = 60, entry = None\<rparr>\<rparr>)"

subsection \<open>checkRateLimits\<close>






subsection \<open>postTweet\<close>

text \<open>
  The object \<open>postTweet\<close> returns, by shape. \<open>RateLimit None\<close> is a denial without
  \<open>resetTime\<close> (the three returns after the durable check); \<open>Undefined\<close> is the case
  where the function runs off its end (a response whose \<open>data\<close> is missing).
\<close>

datatype post_result =
    Success_dryRun
  | Success_data "string option"
  | Duplicate
  | RateLimit "int option"
  | Error_msg string
  | Undefined

text \<open>
  \<open>Promise.all\<close> over the three \<open>consume\<close> calls: all three calls are made, so every
  limiter takes the point, and the rejection that reaches \<open>catch\<close> is the first one in
  the order daily, hourly, minute. \<open>update_all\<close> is the three calls of
  \<open>updateRateLimitUsage\<close> that follow.
\<close>

definition consume_all :: "int \<Rightarrow> state \<Rightarrow> RateLimiterRes option \<times> state" where
  "consume_all t st =
     (let (d, dl) = limiter_consume (dailyLimiter st) t;
          (h, hl) = limiter_consume (hourlyLimiter st) t;
          (m, ml) = limiter_consume (minuteLimiter st) t
      in (first_rejection [d, h, m],
          st\<lparr>dailyLimiter := dl, hourlyLimiter := hl, minuteLimiter := ml\<rparr>))"

definition update_all :: "instant \<Rightarrow> rate_row list \<Rightarrow> rate_row list" where
  "update_all now rows =
     updateRateLimitUsage Minute (currentMinute now) 1
       (updateRateLimitUsage Hourly (currentHour now) 1
         (updateRateLimitUsage Daily (today now) 1 rows))"

text \<open>
  \<open>H\<close> is \<open>generateContentHash\<close> (SHA-256 as a hex string), kept as a parameter:
  nothing below depends on which function it is.
\<close>

definition postTweet ::
  "config \<Rightarrow> (string \<Rightarrow> string) \<Rightarrow> tweet \<Rightarrow> instant \<Rightarrow> api_outcome \<Rightarrow> state
     \<Rightarrow> post_result \<times> state" where
  "postTweet cfg H tweetData now remote st =
     (let contentHash = H (tw_text tweetData) in
      if contentHash \<in> postedHashes st then (Duplicate, st)
      else
        let dailyUsed = getRateLimitUsage (rate_limits st) Daily (today now);
            hourlyUsed = getRateLimitUsage (rate_limits st) Hourly (currentHour now);
            minuteUsed = getRateLimitUsage (rate_limits st) Minute (currentMinute now)
        in if dailyUsed \<ge> TWEET_DAILY_LIMIT then (RateLimit None, st)
           else if hourlyUsed \<ge> TWEET_HOURLY_LIMIT then (RateLimit None, st)
           else if minuteUsed \<ge> TWEET_MINUTE_LIMIT then (RateLimit None, st)
           else
             (case consume_all (ms now) st of
                (Some rejRes, st1) \<Rightarrow> (RateLimit (Some (msBeforeNext rejRes)), st1)
              | (None, st1) \<Rightarrow>
                  let st2 = st1\<lparr>rate_limits := update_all now (rate_limits st1)\<rparr> in
                  if DRY_RUN cfg
                  then (Success_dryRun, st2\<lparr>postedHashes := insert contentHash (postedHashes st2)\<rparr>)
                  else if \<not> twitterClient cfg
                  then (Error_msg ''Twitter client not initialized'', st2)
                  else
                    (case remote of
                       ApiData d \<Rightarrow>
                         (Success_data d,
                          st2\<lparr>postedHashes := insert contentHash (postedHashes st2)\<rparr>)
                     | ApiNoData \<Rightarrow> (Undefined, st2)
                     | ApiThrows m \<Rightarrow> (Error_msg m, st2))))"

text \<open>
  A result other than a duplicate or a rate denial: the attempt went past the rate check.
\<close>

definition passes_rate_check :: "post_result \<Rightarrow> bool" where
  "passes_rate_check r = (case r of Duplicate \<Rightarrow> False | RateLimit x \<Rightarrow> False | _ \<Rightarrow> True)"

subsection \<open>runScheduler\<close>

datatype js_error = TypeError | RangeError

text \<open>
  The body of the \<open>for\<close> loop after \<open>postTweet\<close> has returned: the \<open>updates\<close> object, or
  the exception the body throws. Reading \<open>result.success\<close> of \<open>undefined\<close> is a
  TypeError. With no \<open>resetTime\<close>, \<open>now.getTime() + result.resetTime\<close> is \<open>NaN\<close> and
  \<open>toISOString\<close> of the invalid date throws a RangeError.
\<close>

definition scheduler_updates :: "int \<Rightarrow> tweet \<Rightarrow> post_result \<Rightarrow> js_error + updates" where
  "scheduler_updates now tweet result =
     (let updates = no_updates\<lparr>u_attempts := Some (attempts tweet + 1)\<rparr> in
      case result of
        Undefined \<Rightarrow> Inl TypeError
      | Success_dryRun \<Rightarrow> Inr (updates\<lparr>u_status := Some Posted, u_postedAt := Some now\<rparr>)
      | Success_data d \<Rightarrow>
          Inr (updates\<lparr>u_status := Some Posted, u_postedAt := Some now, u_tweetId := Some d\<rparr>)
      | Duplicate \<Rightarrow> Inr (updates\<lparr>u_status := Some Posted, u_postedAt := Some now\<rparr>)
      | RateLimit None \<Rightarrow> Inl RangeError
      | RateLimit (Some r) \<Rightarrow> Inr (updates\<lparr>u_nextRetryAt := Some (now + r)\<rparr>)
      | Error_msg m \<Rightarrow>
          if attempts tweet \<ge> 4
          then Inr (updates\<lparr>u_status := Some Failed, u_error := Some m, u_failedAt := Some now\<rparr>)
          else Inr (updates\<lparr>u_nextRetryAt := Some (now + 5 * 60 * 1000)\<rparr>))"

text \<open>
  One iteration: the result of \<open>postTweet\<close>, the exception that leaves the loop (if
  any), and the state. The value \<open>updateTweet\<close> resolves to is not looked at.
\<close>

definition loop_body ::
  "config \<Rightarrow> (string \<Rightarrow> string) \<Rightarrow> int \<Rightarrow> env \<Rightarrow> tweet \<Rightarrow> state
     \<Rightarrow> post_result \<times> js_error option \<times> state" where
  "loop_body cfg H now e tweet st =
     (let (result, st1) = postTweet cfg H tweet (at e) (api e) st in
      case scheduler_updates now tweet result of
        Inl err \<Rightarrow> (result, Some err, st1)
      | Inr updates \<Rightarrow>
          (result, None,
           st1\<lparr>tweets := snd (updateTweet (tw_id tweet) updates (updateClock e) (tweets st1))\<rparr>))"

text \<open>
  What one run of \<open>runScheduler\<close> leaves: the state, the exception its outer
  \<open>try/catch\<close> caught (\<open>None\<close> when the loop ran to its end), and the result of each
  \<open>postTweet\<close> call by tweet id, in order.
\<close>

record tick =
  final :: state
  crashed :: "js_error option"
  results :: "(string \<times> post_result) list"

fun for_loop ::
  "config \<Rightarrow> (string \<Rightarrow> string) \<Rightarrow> int \<Rightarrow> (string \<Rightarrow> env) \<Rightarrow> tweet list \<Rightarrow> state \<Rightarrow> tick" where
  "for_loop cfg H now E [] st = \<lparr>final = st, crashed = None, results = []\<rparr>"
| "for_loop cfg H now E (tweet # rest) st =
     (case loop_body cfg H now (E (tw_id tweet)) tweet st of
        (result, Some err, st1) \<Rightarrow>
          \<lparr>final = st1, crashed = Some err, results = [(tw_id tweet, result)]\<rparr>
      | (result, None, st1) \<Rightarrow>
          (let r = for_loop cfg H now E rest st1
           in r\<lparr>results := (tw_id tweet, result) # results r\<rparr>))"

definition is_due :: "int \<Rightarrow> tweet \<Rightarrow> bool" where
  "is_due now tweet =
     (status tweet = Pending \<and> (case runAt tweet of None \<Rightarrow> False | Some r \<Rightarrow> r \<le> now))"

text \<open>
  \<open>loadTweets\<close>: the list \<open>tweets\<close> holds the rows in the order the query yields them.
  \<open>E\<close> gives, for each tweet id, what the world supplies while that tweet is handled.
\<close>

definition loadTweets :: "state \<Rightarrow> tweet list" where
  "loadTweets st = tweets st"

definition dueTweets :: "int \<Rightarrow> state \<Rightarrow> tweet list" where
  "dueTweets now st = filter (is_due now) (loadTweets st)"

definition runScheduler ::
  "config \<Rightarrow> (string \<Rightarrow> string) \<Rightarrow> int \<Rightarrow> (string \<Rightarrow> env) \<Rightarrow> state \<Rightarrow> tick" where
  "runScheduler cfg H now E st =
     (if dueTweets now st = [] then \<lparr>final = st, crashed = None, results = []\<rparr>
      else for_loop cfg H now E (dueTweets now st) st)"

text \<open>The timer calls \<open>runScheduler\<close> again and again; each run has its own clock and world.\<close>

fun run_ticks ::
  "config \<Rightarrow> (string \<Rightarrow> string) \<Rightarrow> (int \<times> (string \<Rightarrow> env)) list \<Rightarrow> state \<Rightarrow> state" where
  "run_ticks cfg H [] st = st"
| "run_ticks cfg H ((now, E) # ts) st = run_ticks cfg H ts (final (runScheduler cfg H now E st))"

subsection \<open>PUT /api/tweets/:id\<close>







subsection \<open>The bound on the durable counters\<close>

text \<open>No row of the rate_limits table is above the limit of its period.\<close>

definition rate_ok :: "rate_row list \<Rightarrow> bool" where
  "rate_ok rows = list_all (\<lambda>r. used r \<le> limit_of (period r)) rows"

subsection \<open>The guard, for two rows with the same text\<close>


section \<open>Concrete inputs\<close>

text \<open>
  A clock reading, a pending tweet that is due at that reading, and the state of a
  process that has just started on given tables (limiters set up by
  \<open>initializeRateLimiters\<close>, empty idempotency cache).
\<close>

definition ex_now :: instant where
  "ex_now = \<lparr>today = ''2025-09-08'', currentHour = ''2025-09-08-14'',
             currentMinute = ''2025-09-08-14-30'', ms = 1757341800000\<rparr>"

definition ex_tweet :: "string \<Rightarrow> string \<Rightarrow> tweet" where
  "ex_tweet i t = \<lparr>tw_id = i, tw_text = t, runAt = Some 1757341000000, status = Pending,
     attempts = 0, createdAt = 1757340000000, updatedAt = 1757340000000, postedAt = None,
     tweetId = None, error = None, failedAt = None\<rparr>"

definition start_state :: "tweet list \<Rightarrow> rate_row list \<Rightarrow> state" where
  "start_state rows rates =
     initializeRateLimiters ex_now
       \<lparr>tweets = rows, rate_limits = rates, postedHashes = {},
        dailyLimiter = \<lparr>points = 0, duration = 0, entry = None\<rparr>,
        hourlyLimiter = \<lparr>points = 0, duration = 0, entry = None\<rparr>,
        minuteLimiter = \<lparr>points = 0, duration = 0, entry = None\<rparr>\<rparr>"

definition ex_env :: "api_outcome \<Rightarrow> env" where
  "ex_env remote = \<lparr>at = ex_now, api = remote, updateClock = 1757341800500\<rparr>"

definition dry :: config where
  "dry = \<lparr>DRY_RUN = True, twitterClient = False\<rparr>"

definition live :: config where
  "live = \<lparr>DRY_RUN = False, twitterClient = True\<rparr>"

text \<open>A table with one posted row and one pending row that is due.\<close>

definition ex_terminal :: state where
  "ex_terminal =
     start_state [(ex_tweet ''a'' ''hello'')\<lparr>status := Posted, tweetId := Some ''99''\<rparr>,
                  ex_tweet ''b'' ''world''] []"

text \<open>
  Two pending tweets that are due, in a minute bucket whose durable counter stands at 2.
\<close>

definition ex_minute_two :: state where
  "ex_minute_two =
     start_state [ex_tweet ''a'' ''hello'', ex_tweet ''b'' ''world'']
       [\<lparr>period = Minute, date = ''2025-09-08-14-30'', used = 2\<rparr>]"

text \<open>Two pending tweets that are due, on empty rate tables.\<close>

definition ex_fresh :: state where
  "ex_fresh = start_state [ex_tweet ''a'' ''hello'', ex_tweet ''b'' ''world''] []"



text \<open>
  Three pending tweets that are due, the first and the last with the same text, in a
  minute bucket whose durable counter stands at 2.
\<close>

definition ex_three :: state where
  "ex_three =
     start_state [ex_tweet ''c'' ''world'', ex_tweet ''a'' ''hello'', ex_tweet ''b'' ''world'']
       [\<lparr>period = Minute, date = ''2025-09-08-14-30'', used = 2\<rparr>]"

text \<open>
  A process that started while the hour bucket was full (so its hourly limiter holds no
  points), and a clock reading in the next hour.
\<close>

definition ex_hour_full :: state where
  "ex_hour_full =
     start_state [ex_tweet ''a'' ''hello'']
       [\<lparr>period = Hourly, date = ''2025-09-08-14'', used = 25\<rparr>]"

definition ex_later :: instant where
  "ex_later = \<lparr>today = ''2025-09-08'', currentHour = ''2025-09-08-15'',
               currentMinute = ''2025-09-08-15-00'', ms = 1757343600000\<rparr>"

definition ex_env_later :: env where
  "ex_env_later = \<lparr>at = ex_later, api = ApiNoData, updateClock = 1757343600500\<rparr>"



section \<open>Properties of the backoff delay\<close>

lemma calculateBackoffDelay_mono:
  "0 \<le> b \<Longrightarrow> j \<le> k \<Longrightarrow> calculateBackoffDelay j b \<le> calculateBackoffDelay k b"
proof -
  assume b: "0 \<le> b" and jk: "j \<le> k"
  have "(2::int) ^ j \<le> 2 ^ k" using jk by (simp add: power_increasing)
  then have "b * 2 ^ j \<le> b * 2 ^ k" using b by (rule mult_left_mono)
  then show ?thesis unfolding calculateBackoffDelay_def by simp
qed

text \<open>
  Claim C7. For every attempt number \<open>k\<close> the retry delay is
  \<open>min (baseDelay * 2 ^ k) 300000\<close> milliseconds, with base 1000 for a rate limit signal
  (status 429) and base 5000 for a server error (status 500 and above); the delay never
  decreases as \<open>k\<close> grows and never exceeds 300 seconds.
\<close>

theorem backoff_delay:
  "(isRateLimit s \<longrightarrow> k < MAX_RETRIES \<longrightarrow> retryDelay s k = Some (min (1000 * 2 ^ k) 300000)) \<and>
   (500 \<le> s \<longrightarrow> k < MAX_RETRIES \<longrightarrow> retryDelay s k = Some (min (5000 * 2 ^ k) 300000)) \<and>
   calculateBackoffDelay k RATE_LIMIT_BACKOFF_BASE = min (1000 * 2 ^ k) 300000 \<and>
   calculateBackoffDelay k 5000 = min (5000 * 2 ^ k) 300000 \<and>
   (j \<le> k \<longrightarrow> calculateBackoffDelay j RATE_LIMIT_BACKOFF_BASE \<le> calculateBackoffDelay k RATE_LIMIT_BACKOFF_BASE) \<and>
   (j \<le> k \<longrightarrow> calculateBackoffDelay j 5000 \<le> calculateBackoffDelay k 5000) \<and>
   calculateBackoffDelay k RATE_LIMIT_BACKOFF_BASE \<le> 300000 \<and>
   calculateBackoffDelay k 5000 \<le> 300000"
proof -
  have m1: "j \<le> k \<longrightarrow> calculateBackoffDelay j RATE_LIMIT_BACKOFF_BASE \<le> calculateBackoffDelay k RATE_LIMIT_BACKOFF_BASE"
    using calculateBackoffDelay_mono [of RATE_LIMIT_BACKOFF_BASE j k]
    by (simp add: RATE_LIMIT_BACKOFF_BASE_def)
  have m2: "j \<le> k \<longrightarrow> calculateBackoffDelay j 5000 \<le> calculateBackoffDelay k 5000"
    using calculateBackoffDelay_mono [of 5000 j k] by simp
  have r1: "isRateLimit s \<longrightarrow> k < MAX_RETRIES \<longrightarrow> retryDelay s k = Some (min (1000 * 2 ^ k) 300000)"
    by (simp add: retryDelay_def isRetryable_def calculateBackoffDelay_def RATE_LIMIT_BACKOFF_BASE_def)
  have r2: "500 \<le> s \<longrightarrow> k < MAX_RETRIES \<longrightarrow> retryDelay s k = Some (min (5000 * 2 ^ k) 300000)"
    by (simp add: retryDelay_def isRetryable_def isRateLimit_def calculateBackoffDelay_def)
  show ?thesis using m1 m2 r1 r2
    by (simp add: calculateBackoffDelay_def RATE_LIMIT_BACKOFF_BASE_def)
qed

theorem backoff_delay_witness:
  "isRateLimit 429 \<and> (3::nat) < MAX_RETRIES \<and> retryDelay 429 3 = Some 8000 \<and>
   (500::int) \<le> 503 \<and> retryDelay 503 3 = Some 40000 \<and>
   (3::nat) \<le> 9 \<and> calculateBackoffDelay 3 RATE_LIMIT_BACKOFF_BASE = 8000 \<and>
   calculateBackoffDelay 9 RATE_LIMIT_BACKOFF_BASE = 300000 \<and>
   calculateBackoffDelay 3 5000 = 40000 \<and> calculateBackoffDelay 9 5000 = 300000"
  using backoff_delay [of 429 3 3] backoff_delay [of 503 3 3] backoff_delay [of 0 9 3]
  by (simp add: isRateLimit_def MAX_RETRIES_def)

section \<open>The scheduler leaves rows it does not handle alone\<close>

lemma consume_all_tweets: "tweets (snd (consume_all t st)) = tweets st"
  by (simp add: consume_all_def split_beta)

lemma postTweet_tweets: "tweets (snd (postTweet cfg H tw now remote st)) = tweets st"
proof -
  obtain r s where c: "consume_all (ms now) st = (r, s)" by force
  have ts: "tweets s = tweets st" using consume_all_tweets [of "ms now" st] c by simp
  show ?thesis
    by (cases r; cases remote) (simp_all add: postTweet_def Let_def c ts)
qed


lemma apply_updates_id: "tw_id (apply_updates u ts r) = tw_id r"
  by (simp add: apply_updates_def)

lemma updateTweet_ids: "map tw_id (snd (updateTweet i u ts rows)) = map tw_id rows"
  by (simp add: updateTweet_def apply_updates_id)

lemma updateTweet_other:
  "k < length rows \<Longrightarrow> tw_id (rows ! k) \<noteq> i \<Longrightarrow> snd (updateTweet i u ts rows) ! k = rows ! k"
  by (simp add: updateTweet_def)

lemma loop_body_tweets:
  assumes "loop_body cfg H now e tw st = (res, err, st')"
  shows "tweets st' = tweets st \<or>
     (\<exists>u. tweets st' = snd (updateTweet (tw_id tw) u (updateClock e) (tweets st)))"
proof -
  obtain r s where p: "postTweet cfg H tw (at e) (api e) st = (r, s)" by force
  have ts: "tweets s = tweets st" using postTweet_tweets [of cfg H tw "at e" "api e" st] p by simp
  show ?thesis
  proof (cases "scheduler_updates now tw r")
    case (Inl x)
    then have "st' = s" using assms p by (simp add: loop_body_def)
    then show ?thesis using ts by simp
  next
    case (Inr u)
    then have "st' = s\<lparr>tweets := snd (updateTweet (tw_id tw) u (updateClock e) (tweets s))\<rparr>"
      using assms p by (simp add: loop_body_def)
    then show ?thesis using ts by auto
  qed
qed

lemma loop_body_ids:
  "loop_body cfg H now e tw st = (res, err, st') \<Longrightarrow> map tw_id (tweets st') = map tw_id (tweets st)"
  using loop_body_tweets [of cfg H now e tw st res err st'] updateTweet_ids by metis

lemma loop_body_other:
  assumes "loop_body cfg H now e tw st = (res, err, st')"
    and "k < length (tweets st)" and "tw_id (tweets st ! k) \<noteq> tw_id tw"
  shows "tweets st' ! k = tweets st ! k"
  using loop_body_tweets [OF assms(1)] assms(2,3) updateTweet_other by auto

lemma for_loop_ids:
  "map tw_id (tweets (final (for_loop cfg H now E due st))) = map tw_id (tweets st)"
proof (induction due arbitrary: st)
  case Nil
  then show ?case by simp
next
  case (Cons tw rest)
  obtain res err st1 where b: "loop_body cfg H now (E (tw_id tw)) tw st = (res, err, st1)"
    by (metis prod_cases3)
  show ?case
  proof (cases err)
    case None
    then show ?thesis using b Cons.IH [of st1] loop_body_ids [OF b] by (simp add: Let_def)
  next
    case (Some x)
    then show ?thesis using b loop_body_ids [OF b] by simp
  qed
qed

lemma for_loop_other:
  assumes "k < length (tweets st)" and "tw_id (tweets st ! k) \<notin> tw_id ` set due"
  shows "tweets (final (for_loop cfg H now E due st)) ! k = tweets st ! k"
  using assms
proof (induction due arbitrary: st)
  case Nil
  then show ?case by simp
next
  case (Cons tw rest)
  obtain res err st1 where b: "loop_body cfg H now (E (tw_id tw)) tw st = (res, err, st1)"
    by (metis prod_cases3)
  have ids: "map tw_id (tweets st1) = map tw_id (tweets st)" by (rule loop_body_ids [OF b])
  have len: "length (tweets st1) = length (tweets st)" using ids by (metis length_map)
  have same: "tweets st1 ! k = tweets st ! k"
    using loop_body_other [OF b Cons.prems(1)] Cons.prems(2) by simp
  show ?case
  proof (cases err)
    case None
    have "tweets (final (for_loop cfg H now E rest st1)) ! k = tweets st1 ! k"
      using Cons.IH [of st1] Cons.prems len same by simp
    then show ?thesis using b None same by (simp add: Let_def)
  next
    case (Some x)
    then show ?thesis using b same by simp
  qed
qed

lemma runScheduler_ids:
  "map tw_id (tweets (final (runScheduler cfg H now E st))) = map tw_id (tweets st)"
  by (simp add: runScheduler_def for_loop_ids)

lemma not_pending_not_due: "status t \<noteq> Pending \<Longrightarrow> t \<notin> set (dueTweets now st)"
  by (simp add: dueTweets_def is_due_def)

lemma runScheduler_terminal:
  assumes d: "distinct (map tw_id (tweets st))"
    and k: "k < length (tweets st)" and s: "status (tweets st ! k) \<noteq> Pending"
  shows "tweets (final (runScheduler cfg H now E st)) ! k = tweets st ! k"
proof -
  have "tw_id (tweets st ! k) \<notin> tw_id ` set (dueTweets now st)"
  proof
    assume "tw_id (tweets st ! k) \<in> tw_id ` set (dueTweets now st)"
    then obtain t where t: "t \<in> set (dueTweets now st)" "tw_id t = tw_id (tweets st ! k)" by auto
    then have tin: "t \<in> set (tweets st)" and tp: "status t = Pending"
      by (auto simp: dueTweets_def loadTweets_def is_due_def)
    then obtain j where j: "j < length (tweets st)" "tweets st ! j = t" by (auto simp: in_set_conv_nth)
    have "map tw_id (tweets st) ! j = map tw_id (tweets st) ! k" using j k t by simp
    then have "j = k" using d j k by (metis length_map nth_eq_iff_index_eq)
    then show False using j tp s by simp
  qed
  then have "tweets (final (for_loop cfg H now E (dueTweets now st) st)) ! k = tweets st ! k"
    using k by (rule for_loop_other [rotated])
  then show ?thesis unfolding runScheduler_def by (cases "dueTweets now st = []") simp_all
qed

text \<open>
  Claim C8. A row whose status is posted or failed is never in the due subset, and no run
  of the scheduler, however many follow one another, changes any of its columns (ids are
  unique, the table's primary key).
\<close>

theorem terminal_stability:
  assumes "distinct (map tw_id (tweets st))"
    and "k < length (tweets st)" and "status (tweets st ! k) \<noteq> Pending"
  shows "tweets st ! k \<notin> set (dueTweets now st) \<and>
         k < length (tweets (run_ticks cfg H ticks st)) \<and>
         tweets (run_ticks cfg H ticks st) ! k = tweets st ! k"
  using assms
proof (induction ticks arbitrary: st)
  case Nil
  have nd: "tweets st ! k \<notin> set (dueTweets now st)"
    by (rule not_pending_not_due [OF Nil.prems(3)])
  show ?case using nd Nil.prems(2) by simp
next
  case (Cons a ticks)
  obtain now' E where a: "a = (now', E)" by (cases a)
  let ?st1 = "final (runScheduler cfg H now' E st)"
  have ids: "map tw_id (tweets ?st1) = map tw_id (tweets st)" by (rule runScheduler_ids)
  have len: "length (tweets ?st1) = length (tweets st)" using ids by (metis length_map)
  have same: "tweets ?st1 ! k = tweets st ! k" by (rule runScheduler_terminal [OF Cons.prems])
  have d1: "distinct (map tw_id (tweets ?st1))" using ids Cons.prems(1) by simp
  have k1: "k < length (tweets ?st1)" using len Cons.prems(2) by simp
  have s1: "status (tweets ?st1 ! k) \<noteq> Pending" using same Cons.prems(3) by simp
  have step: "k < length (tweets (run_ticks cfg H ticks ?st1)) \<and>
        tweets (run_ticks cfg H ticks ?st1) ! k = tweets ?st1 ! k"
    using Cons.IH [OF d1 k1 s1] by blast
  have r: "run_ticks cfg H (a # ticks) st = run_ticks cfg H ticks ?st1"
    unfolding a by simp
  have nd: "tweets st ! k \<notin> set (dueTweets now st)"
    by (rule not_pending_not_due [OF Cons.prems(3)])
  have "k < length (tweets (run_ticks cfg H (a # ticks) st))" using step r by simp
  moreover have "tweets (run_ticks cfg H (a # ticks) st) ! k = tweets st ! k"
    using step r same by simp
  ultimately show ?case using nd by blast
qed

theorem terminal_stability_witness:
  "distinct (map tw_id (tweets ex_terminal)) \<and> 0 < length (tweets ex_terminal) \<and>
   status (tweets ex_terminal ! 0) \<noteq> Pending \<and>
   tweets (run_ticks dry id [(1757341800000, \<lambda>i. ex_env ApiNoData)] ex_terminal) ! 0
     = tweets ex_terminal ! 0"
  using terminal_stability
    [of ex_terminal 0 1757341800000 dry id "[(1757341800000, \<lambda>i. ex_env ApiNoData)]"]
  by (simp add: ex_terminal_def start_state_def ex_tweet_def initializeRateLimiters_def Let_def)

section \<open>The durable counters stay within the limits\<close>

lemma find_replace_same:
  "P y \<Longrightarrow> find P (filter (\<lambda>r. \<not> P r) rows @ [y]) = Some y"
  by (induction rows) auto

lemma find_replace_other:
  "\<not> P' y \<Longrightarrow> (\<And>r. P' r \<Longrightarrow> \<not> P r) \<Longrightarrow> find P' (filter (\<lambda>r. \<not> P r) rows @ [y]) = find P' rows"
  by (induction rows) auto

lemma usage_find:
  "find (\<lambda>r. period r = p \<and> date r = d) rows = Some y \<Longrightarrow> getRateLimitUsage rows p d = used y"
  by (simp add: getRateLimitUsage_def)

lemma usage_find_eq:
  "find (\<lambda>r. period r = p \<and> date r = d) rows = find (\<lambda>r. period r = p \<and> date r = d) rows'
     \<Longrightarrow> getRateLimitUsage rows p d = getRateLimitUsage rows' p d"
  by (simp add: getRateLimitUsage_def)

lemma getRateLimitUsage_update:
  "getRateLimitUsage (updateRateLimitUsage p d n rows) p' d' =
     (if p' = p \<and> d' = d then getRateLimitUsage rows p d + n else getRateLimitUsage rows p' d')"
proof (cases "p' = p \<and> d' = d")
  case True
  let ?y = "\<lparr>period = p, date = d, used = getRateLimitUsage rows p d + n\<rparr>"
  have "find (\<lambda>r. period r = p \<and> date r = d)
          (filter (\<lambda>r. \<not> (period r = p \<and> date r = d)) rows @ [?y]) = Some ?y"
    by (rule find_replace_same) simp
  then have "find (\<lambda>r. period r = p \<and> date r = d) (updateRateLimitUsage p d n rows) = Some ?y"
    unfolding updateRateLimitUsage_def .
  then have "getRateLimitUsage (updateRateLimitUsage p d n rows) p d = used ?y"
    by (rule usage_find)
  then show ?thesis using True by simp
next
  case False
  let ?y = "\<lparr>period = p, date = d, used = getRateLimitUsage rows p d + n\<rparr>"
  have "find (\<lambda>r. period r = p' \<and> date r = d')
          (filter (\<lambda>r. \<not> (period r = p \<and> date r = d)) rows @ [?y])
        = find (\<lambda>r. period r = p' \<and> date r = d') rows"
    using False by (intro find_replace_other) auto
  then have "find (\<lambda>r. period r = p' \<and> date r = d') (updateRateLimitUsage p d n rows)
        = find (\<lambda>r. period r = p' \<and> date r = d') rows"
    unfolding updateRateLimitUsage_def .
  then have "getRateLimitUsage (updateRateLimitUsage p d n rows) p' d' = getRateLimitUsage rows p' d'"
    by (rule usage_find_eq)
  then show ?thesis using False by auto
qed

lemma rate_ok_update:
  "rate_ok rows \<Longrightarrow> getRateLimitUsage rows p d < limit_of p \<Longrightarrow> rate_ok (updateRateLimitUsage p d 1 rows)"
  by (simp add: rate_ok_def updateRateLimitUsage_def list_all_iff)

lemma rate_ok_update_all:
  assumes "rate_ok rows"
    and "getRateLimitUsage rows Daily (today now) < TWEET_DAILY_LIMIT"
    and "getRateLimitUsage rows Hourly (currentHour now) < TWEET_HOURLY_LIMIT"
    and "getRateLimitUsage rows Minute (currentMinute now) < TWEET_MINUTE_LIMIT"
  shows "rate_ok (update_all now rows)"
proof -
  let ?r1 = "updateRateLimitUsage Daily (today now) 1 rows"
  let ?r2 = "updateRateLimitUsage Hourly (currentHour now) 1 ?r1"
  have 1: "rate_ok ?r1" using assms(1,2) by (simp add: rate_ok_update limit_of_def)
  have "getRateLimitUsage ?r1 Hourly (currentHour now) < limit_of Hourly"
    using assms(3) by (simp add: getRateLimitUsage_update limit_of_def)
  then have 2: "rate_ok ?r2" using 1 by (rule rate_ok_update [rotated])
  have "getRateLimitUsage ?r2 Minute (currentMinute now) < limit_of Minute"
    using assms(4) by (simp add: getRateLimitUsage_update limit_of_def)
  then have "rate_ok (updateRateLimitUsage Minute (currentMinute now) 1 ?r2)"
    using 2 by (rule rate_ok_update [rotated])
  then show ?thesis by (simp add: update_all_def)
qed

lemma consume_all_rate_limits: "rate_limits (snd (consume_all t st)) = rate_limits st"
  by (simp add: consume_all_def split_beta)

lemma postTweet_rate_limits:
  "rate_limits (snd (postTweet cfg H tw now remote st)) = rate_limits st \<or>
   (getRateLimitUsage (rate_limits st) Daily (today now) < TWEET_DAILY_LIMIT \<and>
    getRateLimitUsage (rate_limits st) Hourly (currentHour now) < TWEET_HOURLY_LIMIT \<and>
    getRateLimitUsage (rate_limits st) Minute (currentMinute now) < TWEET_MINUTE_LIMIT \<and>
    fst (consume_all (ms now) st) = None \<and>
    rate_limits (snd (postTweet cfg H tw now remote st)) = update_all now (rate_limits st))"
proof -
  obtain r s where c: "consume_all (ms now) st = (r, s)" by force
  have ts: "rate_limits s = rate_limits st" using consume_all_rate_limits [of "ms now" st] c by simp
  show ?thesis
    by (cases r; cases remote) (simp_all add: postTweet_def Let_def c ts)
qed

lemma postTweet_rate_ok:
  "rate_ok (rate_limits st) \<Longrightarrow> rate_ok (rate_limits (snd (postTweet cfg H tw now remote st)))"
  using postTweet_rate_limits [of cfg H tw now remote st] rate_ok_update_all [of "rate_limits st" now]
  by auto

lemma loop_body_rate_ok:
  assumes "loop_body cfg H now e tw st = (res, err, st')" and "rate_ok (rate_limits st)"
  shows "rate_ok (rate_limits st')"
proof -
  obtain r s where p: "postTweet cfg H tw (at e) (api e) st = (r, s)" by force
  have ok: "rate_ok (rate_limits s)" using postTweet_rate_ok [OF assms(2), of cfg H tw "at e" "api e"] p by simp
  show ?thesis
  proof (cases "scheduler_updates now tw r")
    case (Inl x)
    then have "st' = s" using assms p by (simp add: loop_body_def)
    then show ?thesis using ok by simp
  next
    case (Inr u)
    then have "st' = s\<lparr>tweets := snd (updateTweet (tw_id tw) u (updateClock e) (tweets s))\<rparr>"
      using assms p by (simp add: loop_body_def)
    then show ?thesis using ok by simp
  qed
qed

lemma for_loop_rate_ok:
  "rate_ok (rate_limits st) \<Longrightarrow> rate_ok (rate_limits (final (for_loop cfg H now E due st)))"
proof (induction due arbitrary: st)
  case Nil
  then show ?case by simp
next
  case (Cons tw rest)
  obtain res err st1 where b: "loop_body cfg H now (E (tw_id tw)) tw st = (res, err, st1)"
    by (metis prod_cases3)
  have ok: "rate_ok (rate_limits st1)" by (rule loop_body_rate_ok [OF b Cons.prems])
  show ?case
  proof (cases err)
    case None
    then show ?thesis using b Cons.IH [OF ok] by (simp add: Let_def)
  next
    case (Some x)
    then show ?thesis using b ok by simp
  qed
qed

lemma runScheduler_rate_ok:
  "rate_ok (rate_limits st) \<Longrightarrow> rate_ok (rate_limits (final (runScheduler cfg H now E st)))"
  by (simp add: runScheduler_def for_loop_rate_ok)

lemma run_ticks_rate_ok:
  "rate_ok (rate_limits st) \<Longrightarrow> rate_ok (rate_limits (run_ticks cfg H ticks st))"
proof (induction ticks arbitrary: st)
  case Nil
  then show ?case by simp
next
  case (Cons a ticks)
  obtain now E where a: "a = (now, E)" by (cases a)
  show ?case unfolding a using Cons.IH [OF runScheduler_rate_ok [OF Cons.prems]] by simp
qed

lemma rate_ok_usage: "rate_ok rows \<Longrightarrow> getRateLimitUsage rows p d \<le> limit_of p"
proof -
  assume ok: "rate_ok rows"
  show ?thesis
  proof (cases "find (\<lambda>r. period r = p \<and> date r = d) rows")
    case None
    then show ?thesis by (cases p) (simp_all add: getRateLimitUsage_def limit_of_def
      TWEET_DAILY_LIMIT_def TWEET_HOURLY_LIMIT_def TWEET_MINUTE_LIMIT_def)
  next
    case (Some r)
    then have "r \<in> set rows" "period r = p" by (auto simp: find_Some_iff)
    then show ?thesis using ok Some by (auto simp: getRateLimitUsage_def rate_ok_def list_all_iff)
  qed
qed

text \<open>
  Claim C2. If no row of the rate_limits table exceeds the limit of its period (150 per
  day, 25 per hour, 3 per minute), then after any sequence of scheduler runs, each
  handling its due tweets one after the other, no row exceeds it either, and the usage
  read for any period and bucket key is within the limit. The reason is the last part:
  a call of \<open>postTweet\<close> changes the table only after it has read all three current
  buckets below their limits.
\<close>

theorem rate_conservation:
  assumes "rate_ok (rate_limits st)"
  shows "rate_ok (rate_limits (run_ticks cfg H ticks st)) \<and>
         (\<forall>r \<in> set (rate_limits (run_ticks cfg H ticks st)). used r \<le> limit_of (period r)) \<and>
         getRateLimitUsage (rate_limits (run_ticks cfg H ticks st)) p d \<le> limit_of p \<and>
         limit_of Daily = 150 \<and> limit_of Hourly = 25 \<and> limit_of Minute = 3 \<and>
         (rate_limits (snd (postTweet cfg H tw now remote s)) \<noteq> rate_limits s \<longrightarrow>
            getRateLimitUsage (rate_limits s) Daily (today now) < limit_of Daily \<and>
            getRateLimitUsage (rate_limits s) Hourly (currentHour now) < limit_of Hourly \<and>
            getRateLimitUsage (rate_limits s) Minute (currentMinute now) < limit_of Minute)"
proof -
  have ok: "rate_ok (rate_limits (run_ticks cfg H ticks st))" by (rule run_ticks_rate_ok [OF assms])
  have inv: "rate_ok (rate_limits (run_ticks cfg H ticks st)) \<and>
         (\<forall>r \<in> set (rate_limits (run_ticks cfg H ticks st)). used r \<le> limit_of (period r)) \<and>
         getRateLimitUsage (rate_limits (run_ticks cfg H ticks st)) p d \<le> limit_of p \<and>
         limit_of Daily = 150 \<and> limit_of Hourly = 25 \<and> limit_of Minute = 3"
    using ok rate_ok_usage [OF ok]
    by (simp add: rate_ok_def list_all_iff limit_of_def
      TWEET_DAILY_LIMIT_def TWEET_HOURLY_LIMIT_def TWEET_MINUTE_LIMIT_def)
  have chk: "rate_limits (snd (postTweet cfg H tw now remote s)) \<noteq> rate_limits s \<longrightarrow>
            getRateLimitUsage (rate_limits s) Daily (today now) < limit_of Daily \<and>
            getRateLimitUsage (rate_limits s) Hourly (currentHour now) < limit_of Hourly \<and>
            getRateLimitUsage (rate_limits s) Minute (currentMinute now) < limit_of Minute"
    using postTweet_rate_limits [of cfg H tw now remote s] by (auto simp: limit_of_def)
  show ?thesis using inv chk by blast
qed

theorem rate_conservation_witness:
  "rate_ok (rate_limits ex_minute_two) \<and>
   rate_ok (rate_limits (run_ticks dry id [(1757341800000, \<lambda>i. ex_env ApiNoData)] ex_minute_two)) \<and>
   getRateLimitUsage (rate_limits (run_ticks dry id [(1757341800000, \<lambda>i. ex_env ApiNoData)] ex_minute_two))
     Minute ''2025-09-08-14-30'' \<le> 3"
  using rate_conservation
    [of ex_minute_two dry id "[(1757341800000, \<lambda>i. ex_env ApiNoData)]" Minute "''2025-09-08-14-30''"]
  by (simp add: ex_minute_two_def start_state_def initializeRateLimiters_def Let_def rate_ok_def
      limit_of_def TWEET_MINUTE_LIMIT_def)

section \<open>When the durable counters are incremented\<close>

lemma usage_update_all:
  "getRateLimitUsage (update_all now rows) Daily (today now) = getRateLimitUsage rows Daily (today now) + 1"
  "getRateLimitUsage (update_all now rows) Hourly (currentHour now) = getRateLimitUsage rows Hourly (currentHour now) + 1"
  "getRateLimitUsage (update_all now rows) Minute (currentMinute now) = getRateLimitUsage rows Minute (currentMinute now) + 1"
  by (simp_all add: update_all_def getRateLimitUsage_update)

lemma postTweet_passes:
  assumes "H (tw_text tw) \<notin> postedHashes st"
    and "getRateLimitUsage (rate_limits st) Daily (today now) < TWEET_DAILY_LIMIT"
    and "getRateLimitUsage (rate_limits st) Hourly (currentHour now) < TWEET_HOURLY_LIMIT"
    and "getRateLimitUsage (rate_limits st) Minute (currentMinute now) < TWEET_MINUTE_LIMIT"
    and "fst (consume_all (ms now) st) = None"
  shows "rate_limits (snd (postTweet cfg H tw now remote st)) = update_all now (rate_limits st)"
    and "passes_rate_check (fst (postTweet cfg H tw now remote st))"
proof -
  obtain s where c: "consume_all (ms now) st = (None, s)" using assms(5) by (cases "consume_all (ms now) st") simp
  have ts: "rate_limits s = rate_limits st" using consume_all_rate_limits [of "ms now" st] c by simp
  show "rate_limits (snd (postTweet cfg H tw now remote st)) = update_all now (rate_limits st)"
    using assms(1-4) by (cases remote) (simp_all add: postTweet_def Let_def c ts)
  show "passes_rate_check (fst (postTweet cfg H tw now remote st))"
    using assms(1-4) by (cases remote) (simp_all add: postTweet_def Let_def c passes_rate_check_def)
qed

lemma postTweet_denied:
  assumes "\<not> passes_rate_check (fst (postTweet cfg H tw now remote st))"
  shows "rate_limits (snd (postTweet cfg H tw now remote st)) = rate_limits st"
proof -
  obtain r s where c: "consume_all (ms now) st = (r, s)" by force
  have ts: "rate_limits s = rate_limits st" using consume_all_rate_limits [of "ms now" st] c by simp
  show ?thesis using assms
    by (cases r; cases remote) (simp_all add: postTweet_def Let_def c ts passes_rate_check_def split: if_splits)
qed

lemma postTweet_passes_iff:
  "passes_rate_check (fst (postTweet cfg H tw now remote st)) \<longleftrightarrow>
     H (tw_text tw) \<notin> postedHashes st \<and>
     getRateLimitUsage (rate_limits st) Daily (today now) < TWEET_DAILY_LIMIT \<and>
     getRateLimitUsage (rate_limits st) Hourly (currentHour now) < TWEET_HOURLY_LIMIT \<and>
     getRateLimitUsage (rate_limits st) Minute (currentMinute now) < TWEET_MINUTE_LIMIT \<and>
     fst (consume_all (ms now) st) = None"
proof -
  obtain r s where c: "consume_all (ms now) st = (r, s)" by force
  show ?thesis
    by (cases r; cases remote) (simp_all add: postTweet_def Let_def c passes_rate_check_def)
qed

text \<open>
  Claim C4, as the code has it. An attempt passes the rate check when the content is not
  a duplicate, the durable usage of the three current buckets is below the limits and the
  three in-memory limiters accept. The durable counters of the current day, hour and
  minute buckets are then incremented by one each before the remote call, whatever the
  configuration and whatever the remote call does, so also when the publish call fails;
  they are unchanged exactly when \<open>postTweet\<close> reports a duplicate or a rate denial.
\<close>

theorem counters_incremented_before_dispatch:
  "(passes_rate_check (fst (postTweet cfg H tw now remote st)) \<longrightarrow>
      getRateLimitUsage (rate_limits (snd (postTweet cfg H tw now remote st))) Daily (today now)
        = getRateLimitUsage (rate_limits st) Daily (today now) + 1 \<and>
      getRateLimitUsage (rate_limits (snd (postTweet cfg H tw now remote st))) Hourly (currentHour now)
        = getRateLimitUsage (rate_limits st) Hourly (currentHour now) + 1 \<and>
      getRateLimitUsage (rate_limits (snd (postTweet cfg H tw now remote st))) Minute (currentMinute now)
        = getRateLimitUsage (rate_limits st) Minute (currentMinute now) + 1) \<and>
   (\<not> passes_rate_check (fst (postTweet cfg H tw now remote st)) \<longrightarrow>
      rate_limits (snd (postTweet cfg H tw now remote st)) = rate_limits st) \<and>
   (passes_rate_check (fst (postTweet cfg H tw now remote st)) \<longleftrightarrow>
      H (tw_text tw) \<notin> postedHashes st \<and>
      getRateLimitUsage (rate_limits st) Daily (today now) < TWEET_DAILY_LIMIT \<and>
      getRateLimitUsage (rate_limits st) Hourly (currentHour now) < TWEET_HOURLY_LIMIT \<and>
      getRateLimitUsage (rate_limits st) Minute (currentMinute now) < TWEET_MINUTE_LIMIT \<and>
      fst (consume_all (ms now) st) = None)"
proof -
  have a: "rate_limits (snd (postTweet cfg H tw now remote st)) = update_all now (rate_limits st)"
    if p: "passes_rate_check (fst (postTweet cfg H tw now remote st))"
  proof -
    have c: "H (tw_text tw) \<notin> postedHashes st \<and>
      getRateLimitUsage (rate_limits st) Daily (today now) < TWEET_DAILY_LIMIT \<and>
      getRateLimitUsage (rate_limits st) Hourly (currentHour now) < TWEET_HOURLY_LIMIT \<and>
      getRateLimitUsage (rate_limits st) Minute (currentMinute now) < TWEET_MINUTE_LIMIT \<and>
      fst (consume_all (ms now) st) = None"
      using p postTweet_passes_iff [of cfg H tw now remote st] by simp
    show ?thesis by (rule postTweet_passes(1)) (simp_all add: c)
  qed
  show ?thesis
    using a postTweet_denied [of cfg H tw now remote st] postTweet_passes_iff [of cfg H tw now remote st]
      usage_update_all [of now "rate_limits st"]
    by auto
qed

text \<open>The definitions that evaluate a concrete run.\<close>

lemmas evals = start_state_def ex_tweet_def ex_now_def ex_env_def dry_def live_def
    runScheduler_def dueTweets_def loadTweets_def is_due_def loop_body_def postTweet_def
    initializeRateLimiters_def getRateLimitUsage_def consume_all_def limiter_consume_def
    limiter_get_def update_all_def updateRateLimitUsage_def scheduler_updates_def
    updateTweet_def apply_updates_def no_updates_def Let_def
    TWEET_DAILY_LIMIT_def TWEET_HOURLY_LIMIT_def TWEET_MINUTE_LIMIT_def

text \<open>
  A publish call that throws after the rate check has passed: \<open>postTweet\<close> returns the
  error, and the three durable counters have gone from 0 to 1.
\<close>

theorem failed_publish_consumes_budget:
  "fst (postTweet live id (ex_tweet ''a'' ''hello'') ex_now (ApiThrows ''Service Unavailable'') ex_fresh)
     = Error_msg ''Service Unavailable'' \<and>
   getRateLimitUsage (rate_limits ex_fresh) Minute (currentMinute ex_now) = 0 \<and>
   getRateLimitUsage (rate_limits (snd (postTweet live id (ex_tweet ''a'' ''hello'') ex_now
      (ApiThrows ''Service Unavailable'') ex_fresh))) Minute (currentMinute ex_now) = 1 \<and>
   getRateLimitUsage (rate_limits (snd (postTweet live id (ex_tweet ''a'' ''hello'') ex_now
      (ApiThrows ''Service Unavailable'') ex_fresh))) Hourly (currentHour ex_now) = 1 \<and>
   getRateLimitUsage (rate_limits (snd (postTweet live id (ex_tweet ''a'' ''hello'') ex_now
      (ApiThrows ''Service Unavailable'') ex_fresh))) Daily (today ex_now) = 1"
  by (simp add: ex_fresh_def evals)

theorem counters_incremented_before_dispatch_witness:
  "passes_rate_check (fst (postTweet live id (ex_tweet ''a'' ''hello'') ex_now (ApiThrows ''Service Unavailable'') ex_fresh)) \<and>
   getRateLimitUsage (rate_limits (snd (postTweet live id (ex_tweet ''a'' ''hello'') ex_now
      (ApiThrows ''Service Unavailable'') ex_fresh))) Minute (currentMinute ex_now)
     = getRateLimitUsage (rate_limits ex_fresh) Minute (currentMinute ex_now) + 1 \<and>
   \<not> passes_rate_check (fst (postTweet live id (ex_tweet ''a'' ''hello'') ex_now (ApiThrows ''Service Unavailable'')
       (ex_fresh\<lparr>postedHashes := {''hello''}\<rparr>))) \<and>
   rate_limits (snd (postTweet live id (ex_tweet ''a'' ''hello'') ex_now (ApiThrows ''Service Unavailable'')
       (ex_fresh\<lparr>postedHashes := {''hello''}\<rparr>))) = rate_limits (ex_fresh\<lparr>postedHashes := {''hello''}\<rparr>)"
  using counters_incremented_before_dispatch
     [of live id "ex_tweet ''a'' ''hello''" ex_now "ApiThrows ''Service Unavailable''" ex_fresh]
    counters_incremented_before_dispatch
     [of live id "ex_tweet ''a'' ''hello''" ex_now "ApiThrows ''Service Unavailable''"
         "ex_fresh\<lparr>postedHashes := {''hello''}\<rparr>"]
  by (simp add: ex_fresh_def passes_rate_check_def evals)

section \<open>The snapshot of checkRateLimits\<close>











section \<open>Editing a tweet\<close>






section \<open>Rate denials in a run of the scheduler\<close>

text \<open>
  Claim C6, on the code. The first tweet is posted and fills the minute bucket. The
  second is denied by the durable check, whose result carries no \<open>resetTime\<close>: computing
  \<open>nextRetryAt\<close> throws, the exception leaves the loop and is caught by the outer
  \<open>try/catch\<close> of \<open>runScheduler\<close>. The third tweet, whose content is by then in the
  idempotency cache, is not handled in this run, and neither row has changed.
\<close>

theorem rate_denial_aborts_tick:
  "dueTweets 1757341800000 ex_three = tweets ex_three \<and>
   results (runScheduler dry id 1757341800000 (\<lambda>i. ex_env ApiNoData) ex_three)
     = [(''c'', Success_dryRun), (''a'', RateLimit None)] \<and>
   crashed (runScheduler dry id 1757341800000 (\<lambda>i. ex_env ApiNoData) ex_three) = Some RangeError \<and>
   id ''world'' \<in> postedHashes (final (runScheduler dry id 1757341800000 (\<lambda>i. ex_env ApiNoData) ex_three)) \<and>
   tweets (final (runScheduler dry id 1757341800000 (\<lambda>i. ex_env ApiNoData) ex_three)) ! 1
     = ex_tweet ''a'' ''hello'' \<and>
   tweets (final (runScheduler dry id 1757341800000 (\<lambda>i. ex_env ApiNoData) ex_three)) ! 2
     = ex_tweet ''b'' ''world''"
  by (simp add: ex_three_def evals)

text \<open>
  Claim C3, on the code. The in-memory hourly limiter denies the tweet with a hint of one
  hour and the scheduler computes \<open>nextRetryAt\<close> one hour ahead; the table cannot store
  it, and one minute later the tweet is in the due subset again.
\<close>

theorem deferred_tweet_is_due_again:
  "results (runScheduler dry id 1757343600000 (\<lambda>i. ex_env_later) ex_hour_full)
     = [(''a'', RateLimit (Some 3600000))] \<and>
   crashed (runScheduler dry id 1757343600000 (\<lambda>i. ex_env_later) ex_hour_full) = None \<and>
   scheduler_updates 1757343600000 (ex_tweet ''a'' ''hello'') (RateLimit (Some 3600000))
     = Inr (no_updates\<lparr>u_attempts := Some 1, u_nextRetryAt := Some 1757347200000\<rparr>) \<and>
   tweets (final (runScheduler dry id 1757343600000 (\<lambda>i. ex_env_later) ex_hour_full))
     = [ex_tweet ''a'' ''hello''] \<and>
   dueTweets 1757343660000 (final (runScheduler dry id 1757343600000 (\<lambda>i. ex_env_later) ex_hour_full))
     = [ex_tweet ''a'' ''hello'']"
  by (simp add: ex_hour_full_def ex_later_def ex_env_later_def evals)

section \<open>A rate denial leaves the row as it was\<close>

lemma loop_body_fst:
  "loop_body cfg H now e tw st = (res, err, st') \<Longrightarrow> res = fst (postTweet cfg H tw (at e) (api e) st)"
  by (cases "postTweet cfg H tw (at e) (api e) st")
     (auto simp: loop_body_def split: sum.splits)

lemma loop_body_denied:
  assumes "loop_body cfg H now e tw st = (RateLimit r, err, st')"
  shows "tweets st' = tweets st"
proof -
  obtain res s where p: "postTweet cfg H tw (at e) (api e) st = (res, s)" by force
  have res: "res = RateLimit r" using loop_body_fst [OF assms] p by simp
  have ts: "tweets s = tweets st" using postTweet_tweets [of cfg H tw "at e" "api e" st] p by simp
  show ?thesis
  proof (cases r)
    case None
    then have "st' = s" using assms p res by (simp add: loop_body_def scheduler_updates_def)
    then show ?thesis using ts by simp
  next
    case (Some x)
    then show ?thesis using assms p res ts
      by (auto simp: loop_body_def scheduler_updates_def updateTweet_def)
  qed
qed

lemma for_loop_results_ids:
  "(i, r) \<in> set (results (for_loop cfg H now E due st)) \<Longrightarrow> i \<in> tw_id ` set due"
proof (induction due arbitrary: st)
  case Nil
  then show ?case by simp
next
  case (Cons tw rest)
  obtain res err st1 where b: "loop_body cfg H now (E (tw_id tw)) tw st = (res, err, st1)"
    by (metis prod_cases3)
  show ?case
  proof (cases err)
    case None
    then have "(i, r) = (tw_id tw, res) \<or> (i, r) \<in> set (results (for_loop cfg H now E rest st1))"
      using Cons.prems b by (simp add: Let_def)
    then show ?thesis using Cons.IH [of st1] by auto
  next
    case (Some x)
    then show ?thesis using Cons.prems b by simp
  qed
qed

lemma for_loop_denied:
  assumes "distinct (map tw_id due)"
    and "(i, RateLimit r) \<in> set (results (for_loop cfg H now E due st))"
    and "k < length (tweets st)" and "tw_id (tweets st ! k) = i"
  shows "tweets (final (for_loop cfg H now E due st)) ! k = tweets st ! k"
  using assms
proof (induction due arbitrary: st)
  case Nil
  then show ?case by simp
next
  case (Cons tw rest)
  obtain res err st1 where b: "loop_body cfg H now (E (tw_id tw)) tw st = (res, err, st1)"
    by (metis prod_cases3)
  have ids: "map tw_id (tweets st1) = map tw_id (tweets st)" by (rule loop_body_ids [OF b])
  have len: "length (tweets st1) = length (tweets st)" using ids by (metis length_map)
  have idk: "tw_id (tweets st1 ! k) = i"
    using ids Cons.prems(3,4) len by (metis nth_map)
  have dr: "distinct (map tw_id rest)" and nin: "tw_id tw \<notin> tw_id ` set rest"
    using Cons.prems(1) by auto
  have mem: "(i, RateLimit r) = (tw_id tw, res) \<or>
             (err = None \<and> (i, RateLimit r) \<in> set (results (for_loop cfg H now E rest st1)))"
    using Cons.prems(2) b by (cases err) (simp_all add: Let_def)
  then show ?case
  proof
    assume h: "(i, RateLimit r) = (tw_id tw, res)"
    then have b': "loop_body cfg H now (E (tw_id tw)) tw st = (RateLimit r, err, st1)" using b by simp
    have same: "tweets st1 = tweets st" by (rule loop_body_denied [OF b'])
    show ?thesis
    proof (cases err)
      case None
      have "tw_id (tweets st1 ! k) \<notin> tw_id ` set rest" using idk h nin by simp
      then have "tweets (final (for_loop cfg H now E rest st1)) ! k = tweets st1 ! k"
        using len Cons.prems(3) by (intro for_loop_other) simp_all
      then show ?thesis using b None same by (simp add: Let_def)
    next
      case (Some x)
      then show ?thesis using b same by simp
    qed
  next
    assume h: "err = None \<and> (i, RateLimit r) \<in> set (results (for_loop cfg H now E rest st1))"
    then have "i \<in> tw_id ` set rest" using for_loop_results_ids by blast
    then have ne: "tw_id (tweets st ! k) \<noteq> tw_id tw" using nin Cons.prems(4) by auto
    have same: "tweets st1 ! k = tweets st ! k" by (rule loop_body_other [OF b Cons.prems(3) ne])
    have k1: "k < length (tweets st1)" using len Cons.prems(3) by simp
    have "tweets (final (for_loop cfg H now E rest st1)) ! k = tweets st1 ! k"
      using Cons.IH [OF dr _ k1 idk] h by simp
    then show ?thesis using b h same by (simp add: Let_def)
  qed
qed

lemma distinct_due: "distinct (map tw_id (tweets st)) \<Longrightarrow> distinct (map tw_id (dueTweets now st))"
  by (simp add: dueTweets_def loadTweets_def distinct_map_filter)

lemma runScheduler_results:
  "results (runScheduler cfg H now E st) = results (for_loop cfg H now E (dueTweets now st) st)"
  by (simp add: runScheduler_def)

lemma runScheduler_final:
  "final (runScheduler cfg H now E st) = final (for_loop cfg H now E (dueTweets now st) st)"
  by (simp add: runScheduler_def)

lemma due_row_pending:
  assumes d: "distinct (map tw_id (tweets st))" and k: "k < length (tweets st)"
    and i: "tw_id (tweets st ! k) \<in> tw_id ` set (dueTweets now st)"
  shows "status (tweets st ! k) = Pending"
proof -
  obtain t where t: "t \<in> set (dueTweets now st)" "tw_id t = tw_id (tweets st ! k)" using i by auto
  then have tin: "t \<in> set (tweets st)" and tp: "status t = Pending"
    by (auto simp: dueTweets_def loadTweets_def is_due_def)
  then obtain j where j: "j < length (tweets st)" "tweets st ! j = t" by (auto simp: in_set_conv_nth)
  have "map tw_id (tweets st) ! j = map tw_id (tweets st) ! k" using j k t by simp
  then have "j = k" using d j k by (metis length_map nth_eq_iff_index_eq)
  then show ?thesis using j tp by simp
qed

text \<open>
  Claim C5. When a run of the scheduler gets a rate denial from \<open>postTweet\<close> for a due
  tweet, the row of that tweet is the same after the run as before it: \<open>attempts\<close> is not
  incremented and the status is still pending. (A denial without \<open>resetTime\<close> throws
  before \<open>updateTweet\<close> is called; a denial with \<open>resetTime\<close> puts \<open>nextRetryAt\<close> among
  the updates, and the store rejects the whole statement.)
\<close>

theorem rate_denial_is_not_an_attempt:
  assumes "distinct (map tw_id (tweets st))"
    and "k < length (tweets st)"
    and "(tw_id (tweets st ! k), RateLimit r) \<in> set (results (runScheduler cfg H now E st))"
  shows "status (tweets st ! k) = Pending \<and>
         tweets (final (runScheduler cfg H now E st)) ! k = tweets st ! k \<and>
         attempts (tweets (final (runScheduler cfg H now E st)) ! k) = attempts (tweets st ! k) \<and>
         status (tweets (final (runScheduler cfg H now E st)) ! k) = Pending"
proof -
  have mem: "(tw_id (tweets st ! k), RateLimit r) \<in> set (results (for_loop cfg H now E (dueTweets now st) st))"
    using assms(3) by (simp add: runScheduler_results)
  have "tw_id (tweets st ! k) \<in> tw_id ` set (dueTweets now st)"
    using for_loop_results_ids [OF mem] .
  then have p: "status (tweets st ! k) = Pending" by (rule due_row_pending [OF assms(1,2)])
  have "tweets (final (for_loop cfg H now E (dueTweets now st) st)) ! k = tweets st ! k"
    by (rule for_loop_denied [OF distinct_due [OF assms(1)] mem assms(2)]) simp
  then have "tweets (final (runScheduler cfg H now E st)) ! k = tweets st ! k"
    by (simp add: runScheduler_final)
  then show ?thesis using p by simp
qed

theorem rate_denial_is_not_an_attempt_witness:
  "distinct (map tw_id (tweets ex_hour_full)) \<and> 0 < length (tweets ex_hour_full) \<and>
   (tw_id (tweets ex_hour_full ! 0), RateLimit (Some 3600000))
      \<in> set (results (runScheduler dry id 1757343600000 (\<lambda>i. ex_env_later) ex_hour_full)) \<and>
   attempts (tweets (final (runScheduler dry id 1757343600000 (\<lambda>i. ex_env_later) ex_hour_full)) ! 0)
      = attempts (tweets ex_hour_full ! 0) \<and>
   status (tweets (final (runScheduler dry id 1757343600000 (\<lambda>i. ex_env_later) ex_hour_full)) ! 0)
      = Pending \<and>
   distinct (map tw_id (tweets ex_three)) \<and> 1 < length (tweets ex_three) \<and>
   (tw_id (tweets ex_three ! 1), RateLimit None)
      \<in> set (results (runScheduler dry id 1757341800000 (\<lambda>i. ex_env ApiNoData) ex_three)) \<and>
   attempts (tweets (final (runScheduler dry id 1757341800000 (\<lambda>i. ex_env ApiNoData) ex_three)) ! 1)
      = attempts (tweets ex_three ! 1) \<and>
   status (tweets (final (runScheduler dry id 1757341800000 (\<lambda>i. ex_env ApiNoData) ex_three)) ! 1)
      = Pending"
proof -
  have d: "distinct (map tw_id (tweets ex_hour_full))" and l: "0 < length (tweets ex_hour_full)"
    by (simp_all add: ex_hour_full_def start_state_def initializeRateLimiters_def ex_tweet_def Let_def)
  have m: "(tw_id (tweets ex_hour_full ! 0), RateLimit (Some 3600000))
      \<in> set (results (runScheduler dry id 1757343600000 (\<lambda>i. ex_env_later) ex_hour_full))"
    by (simp add: ex_hour_full_def ex_later_def ex_env_later_def evals)
  have d': "distinct (map tw_id (tweets ex_three))" and l': "1 < length (tweets ex_three)"
    by (simp_all add: ex_three_def start_state_def initializeRateLimiters_def ex_tweet_def Let_def)
  have m': "(tw_id (tweets ex_three ! 1), RateLimit None)
      \<in> set (results (runScheduler dry id 1757341800000 (\<lambda>i. ex_env ApiNoData) ex_three))"
    by (simp add: ex_three_def evals)
  show ?thesis
    using d l m rate_denial_is_not_an_attempt [OF d l m]
      d' l' m' rate_denial_is_not_an_attempt [OF d' l' m']
    by simp
qed

section \<open>The idempotency guard\<close>



















end
